theory Spec2Isabelle
  imports Main "HOL-Library.AList"
begin

section \<open>ShapeNetCore: the dataset index of \<^verbatim>\<open>shapenet_core.py\<close>\<close>

text \<open>
  The class \<^verbatim>\<open>ShapeNetCore\<close> walks a directory tree
  \<^verbatim>\<open><data_dir>/<synset>/<model>/<mesh file>\<close> once, in its constructor, and stores two
  parallel lists \<^verbatim>\<open>synset_ids\<close> and \<^verbatim>\<open>model_ids\<close>. Everything the constructor reads
  from outside is a parameter of the model: the file system (the three calls
  \<^verbatim>\<open>os.listdir\<close>, \<^verbatim>\<open>path.isdir\<close>, \<^verbatim>\<open>path.exists\<close>), the bundled JSON dictionaries,
  the iteration order of a Python set, and the mesh loader \<^verbatim>\<open>load_obj\<close>.
  Exceptions are values of the type \<open>error\<close>; warnings are collected in a list, in
  the order \<^verbatim>\<open>warnings.warn\<close> is called.
\<close>

subsection \<open>Exceptions and warnings\<close>

datatype error =
    ValueError
  | KeyError string
  | IndexError
  | OSError string
  | LoadError string

text \<open>
  The three messages passed to \<^verbatim>\<open>warnings.warn\<close>, each with the values substituted
  into its format string: lines 72-77, lines 87-94 and lines 106-111.
\<close>

datatype warning =
    SynsetNotFound string string
  | SynsetNotInDir string string int string
  | ObjectFileNotFound string string

subsection \<open>Python containers\<close>

text \<open>
  A Python \<^verbatim>\<open>dict\<close> is an association list in insertion order with distinct keys;
  \<^verbatim>\<open>d[k] = v\<close> is \<^const>\<open>AList.update\<close>, which replaces the value of a key already
  there and appends a new key otherwise. \<^verbatim>\<open>json.load\<close> and the dict comprehension
  of lines 53-55 both insert their pairs one after the other, so a later pair
  with the same key wins.
\<close>

type_synonym pydict = "(string \<times> string) list"

definition dict_of_items :: "(string \<times> string) list \<Rightarrow> pydict" where
  "dict_of_items kvs = foldl (\<lambda>d (k, v). AList.update k v d) [] kvs"

definition dict_keys :: "pydict \<Rightarrow> string set" where
  "dict_keys d = fst ` set d"

definition dict_getitem :: "pydict \<Rightarrow> string \<Rightarrow> error + string" where
  "dict_getitem d k = (case map_of d k of None \<Rightarrow> Inl (KeyError k) | Some v \<Rightarrow> Inr v)"

text \<open>
  A Python \<^verbatim>\<open>set\<close> of strings is a list without repetition. \<^verbatim>\<open>s.add(x)\<close> keeps
  the set when \<open>x\<close> is a member. The order in which a \<^verbatim>\<open>for\<close> loop visits a set is
  not fixed by the language; it is the parameter \<open>rank\<close> (the position a string's
  hash gives it): the loop visits the members by increasing rank. Every
  arrangement of a set is the visit order of some \<open>rank\<close>.
\<close>

type_synonym pyset = "string list"

definition set_add :: "string \<Rightarrow> pyset \<Rightarrow> pyset" where
  "set_add x s = (if x \<in> set s then s else s @ [x])"

definition set_of_list :: "string list \<Rightarrow> pyset" where
  "set_of_list xs = foldl (\<lambda>s x. set_add x s) [] xs"

definition set_iter :: "(string \<Rightarrow> nat) \<Rightarrow> pyset \<Rightarrow> string list" where
  "set_iter rank s = sort_key rank s"

text \<open>
  List indexing \<^verbatim>\<open>xs[idx]\<close>: an index from \<open>-len\<close> to \<open>-1\<close> counts from the end, and
  an index outside \<open>-len .. len - 1\<close> raises \<^verbatim>\<open>IndexError\<close>.
\<close>

definition list_getitem :: "'a list \<Rightarrow> int \<Rightarrow> error + 'a" where
  "list_getitem xs idx =
     (if 0 \<le> idx \<and> idx < int (length xs) then Inr (xs ! nat idx)
      else if - int (length xs) \<le> idx \<and> idx < 0 then Inr (xs ! nat (int (length xs) + idx))
      else Inl IndexError)"

subsection \<open>Paths and the file system\<close>

text \<open>
  \<^verbatim>\<open>os.path.join\<close> on a POSIX system: a component that starts with a slash
  replaces what was joined so far; otherwise it is appended, after a slash
  unless the path so far is empty or already ends in one.
\<close>

definition join_component :: "string \<Rightarrow> string \<Rightarrow> string" where
  "join_component p b =
     (if b \<noteq> [] \<and> hd b = CHR ''/'' then b
      else if p = [] \<or> last p = CHR ''/'' then p @ b
      else p @ ''/'' @ b)"

definition path_join :: "string \<Rightarrow> string list \<Rightarrow> string" where
  "path_join a ps = foldl join_component a ps"

text \<open>
  The file system as the constructor sees it. \<^verbatim>\<open>os.listdir\<close> raises \<^verbatim>\<open>OSError\<close>
  (no such directory, not a directory, no permission) where \<open>os_listdir\<close> is
  \<open>None\<close>; \<^verbatim>\<open>path.isdir\<close> and \<^verbatim>\<open>path.exists\<close> never raise.
\<close>

record filesystem =
  os_listdir :: "string \<Rightarrow> string list option"
  path_isdir :: "string \<Rightarrow> bool"
  path_exists :: "string \<Rightarrow> bool"

subsection \<open>The dataset object\<close>

record ShapeNetCore =
  data_dir :: string
  model_dir :: string
  synset_dict :: pydict
  synset_ids :: "string list"
  model_ids :: "string list"

text \<open>
  The dictionary returned by \<^verbatim>\<open>__getitem__\<close>, with its five keys. The types of the
  vertex tensor and of the face-index tensor are left open.
\<close>

record ('v, 'i) model =
  synset_id :: string
  model_id :: string
  verts :: 'v
  faces :: 'i
  label :: string

text \<open>
  \<^verbatim>\<open>load_obj\<close> returns a triple; its second component is an object with an
  attribute \<^verbatim>\<open>verts_idx\<close>. An exception of the loader is \<open>Inl\<close> with its message.
\<close>

record 'i Faces =
  verts_idx :: 'i

type_synonym ('v, 'i, 'a) loader = "string \<Rightarrow> string + ('v \<times> 'i Faces \<times> 'a)"

subsection \<open>The constructor\<close>

text \<open>Line 42-43: the version check; lines 44-46: the mesh file name.\<close>

definition mesh_file_name :: "int \<Rightarrow> string" where
  "mesh_file_name version = (if version = 1 then ''model.obj'' else ''models/model_normalized.obj'')"

text \<open>
  Lines 42-55. \<open>dict_file version\<close> is the list of pairs in the bundled file
  \<^verbatim>\<open>shapenet_synset_dict_v<version>.json\<close>. The result is the mesh file name,
  \<^verbatim>\<open>self.synset_dict\<close> and the inverse dictionary \<^verbatim>\<open>synset_inv\<close>.
\<close>

definition load_synset_dict ::
  "(int \<Rightarrow> (string \<times> string) list) \<Rightarrow> int \<Rightarrow> error + (string \<times> pydict \<times> pydict)" where
  "load_synset_dict dict_file version =
     (if version \<notin> {1, 2} then Inl ValueError
      else
        let d = dict_of_items (dict_file version);
            synset_inv = dict_of_items (map (\<lambda>(offset, label). (label, offset)) d)
        in Inr (mesh_file_name version, d, synset_inv))"

text \<open>
  Lines 62-77, the body of the loop over the requested \<^verbatim>\<open>synsets\<close>. The state is the
  set built so far and the warnings given so far.
\<close>

definition resolve_synset ::
  "filesystem \<Rightarrow> string \<Rightarrow> pydict \<Rightarrow> pydict \<Rightarrow> pyset \<times> warning list \<Rightarrow> string
     \<Rightarrow> pyset \<times> warning list" where
  "resolve_synset fs dir d synset_inv st synset =
     (case st of (synset_set, ws) \<Rightarrow>
        if synset \<in> dict_keys d \<and> path_isdir fs (path_join dir [synset])
        then (set_add synset synset_set, ws)
        else
          (case map_of synset_inv synset of
             Some offset \<Rightarrow>
               if path_isdir fs (path_join dir [offset])
               then (set_add offset synset_set, ws)
               else (synset_set, ws @ [SynsetNotFound synset dir])
           | None \<Rightarrow> (synset_set, ws @ [SynsetNotFound synset dir])))"

definition resolve_synsets ::
  "filesystem \<Rightarrow> string \<Rightarrow> pydict \<Rightarrow> pydict \<Rightarrow> string list \<Rightarrow> pyset \<times> warning list" where
  "resolve_synsets fs dir d synset_inv synsets =
     foldl (resolve_synset fs dir d synset_inv) ([], []) synsets"

text \<open>
  Lines 85-94, the loop over the set of all directories. For a member that is
  not a key of the dictionary the message is formatted first, and the format
  arguments read \<^verbatim>\<open>self.synset_dict[synset]\<close>.
\<close>

fun check_synsets ::
  "pydict \<Rightarrow> int \<Rightarrow> string \<Rightarrow> string list \<Rightarrow> warning list \<Rightarrow> warning list \<times> (error + unit)" where
  "check_synsets d version dir [] ws = (ws, Inr ())"
| "check_synsets d version dir (synset # rest) ws =
     (if synset \<notin> dict_keys d then
        (case dict_getitem d synset of
           Inl e \<Rightarrow> (ws, Inl e)
         | Inr lbl \<Rightarrow> check_synsets d version dir rest (ws @ [SynsetNotInDir synset lbl version dir]))
      else check_synsets d version dir rest ws)"

text \<open>Lines 80-84, the set comprehension over \<^verbatim>\<open>os.listdir(data_dir)\<close>.\<close>

definition list_synsets :: "filesystem \<Rightarrow> string \<Rightarrow> error + pyset" where
  "list_synsets fs dir =
     (case os_listdir fs dir of
        None \<Rightarrow> Inl (OSError dir)
      | Some names \<Rightarrow> Inr (set_of_list (filter (\<lambda>synset. path_isdir fs (path_join dir [synset])) names)))"

text \<open>
  Lines 102-114, the inner loop over the entries of one synset directory. The
  state is \<^verbatim>\<open>self.synset_ids\<close>, \<^verbatim>\<open>self.model_ids\<close> and the warnings.
\<close>

definition index_model ::
  "filesystem \<Rightarrow> string \<Rightarrow> string \<Rightarrow> string
     \<Rightarrow> string list \<times> string list \<times> warning list \<Rightarrow> string
     \<Rightarrow> string list \<times> string list \<times> warning list" where
  "index_model fs dir mdir synset st m =
     (case st of (sids, mids, ws) \<Rightarrow>
        if \<not> path_exists fs (path_join dir [synset, m, mdir])
        then (sids, mids, ws @ [ObjectFileNotFound m synset])
        else (sids @ [synset], mids @ [m], ws))"

text \<open>Lines 101-114, the outer loop over the resolved set, in iteration order.\<close>

fun index_synsets ::
  "filesystem \<Rightarrow> string \<Rightarrow> string \<Rightarrow> string list
     \<Rightarrow> string list \<times> string list \<times> warning list
     \<Rightarrow> warning list \<times> (error + string list \<times> string list)" where
  "index_synsets fs dir mdir [] st = (case st of (sids, mids, ws) \<Rightarrow> (ws, Inr (sids, mids)))"
| "index_synsets fs dir mdir (synset # rest) st =
     (case os_listdir fs (path_join dir [synset]) of
        None \<Rightarrow> (snd (snd st), Inl (OSError (path_join dir [synset])))
      | Some models \<Rightarrow>
          index_synsets fs dir mdir rest (foldl (index_model fs dir mdir synset) st models))"

text \<open>
  Lines 59-94: the set of synsets to load, with the warnings given on the way.
  \<open>synsets = None\<close> is Python's \<^verbatim>\<open>None\<close>.
\<close>

definition resolve ::
  "filesystem \<Rightarrow> (string \<Rightarrow> nat) \<Rightarrow> string \<Rightarrow> pydict \<Rightarrow> pydict \<Rightarrow> int \<Rightarrow> string list option
     \<Rightarrow> warning list \<times> (error + pyset)" where
  "resolve fs rank dir d synset_inv version synsets =
     (case synsets of
        Some requested \<Rightarrow>
          (case resolve_synsets fs dir d synset_inv requested of
             (synset_set, ws) \<Rightarrow> (ws, Inr synset_set))
      | None \<Rightarrow>
          (case list_synsets fs dir of
             Inl e \<Rightarrow> ([], Inl e)
           | Inr synset_set \<Rightarrow>
               (case check_synsets d version dir (set_iter rank synset_set) [] of
                  (ws, Inl e) \<Rightarrow> (ws, Inl e)
                | (ws, Inr _) \<Rightarrow> (ws, Inr synset_set))))"

text \<open>\<^verbatim>\<open>ShapeNetCore.__init__\<close>, lines 41-114.\<close>

definition init ::
  "(int \<Rightarrow> (string \<times> string) list) \<Rightarrow> filesystem \<Rightarrow> (string \<Rightarrow> nat)
     \<Rightarrow> string \<Rightarrow> string list option \<Rightarrow> int \<Rightarrow> warning list \<times> (error + ShapeNetCore)" where
  "init dict_file fs rank dir synsets version =
     (case load_synset_dict dict_file version of
        Inl e \<Rightarrow> ([], Inl e)
      | Inr (mdir, d, synset_inv) \<Rightarrow>
          (case resolve fs rank dir d synset_inv version synsets of
             (ws, Inl e) \<Rightarrow> (ws, Inl e)
           | (ws, Inr synset_set) \<Rightarrow>
               (case index_synsets fs dir mdir (set_iter rank synset_set) ([], [], ws) of
                  (ws', Inl e) \<Rightarrow> (ws', Inl e)
                | (ws', Inr (sids, mids)) \<Rightarrow>
                    (ws', Inr \<lparr>data_dir = dir, model_dir = mdir, synset_dict = d,
                               synset_ids = sids, model_ids = mids\<rparr>))))"

subsection \<open>Size and indexed access\<close>

text \<open>\<^verbatim>\<open>__len__\<close>, line 120.\<close>

definition len :: "ShapeNetCore \<Rightarrow> nat" where
  "len self = length (model_ids self)"

text \<open>The path of lines 136-138.\<close>

definition model_path :: "ShapeNetCore \<Rightarrow> string \<Rightarrow> string \<Rightarrow> string" where
  "model_path self sid mid = path_join (data_dir self) [sid, mid, model_dir self]"

text \<open>
  \<^verbatim>\<open>__getitem__\<close>, lines 133-142, statement by statement: the two list reads,
  the call of the loader, the read of \<^verbatim>\<open>faces.verts_idx\<close> and the dictionary read.
\<close>

definition getitem ::
  "('v, 'i, 'a) loader \<Rightarrow> ShapeNetCore \<Rightarrow> int \<Rightarrow> error + ('v, 'i) model" where
  "getitem load_obj self idx =
     (case list_getitem (synset_ids self) idx of
        Inl e \<Rightarrow> Inl e
      | Inr sid \<Rightarrow>
          (case list_getitem (model_ids self) idx of
             Inl e \<Rightarrow> Inl e
           | Inr mid \<Rightarrow>
               (case load_obj (model_path self sid mid) of
                  Inl msg \<Rightarrow> Inl (LoadError msg)
                | Inr (vs, fcs, aux) \<Rightarrow>
                    (case dict_getitem (synset_dict self) sid of
                       Inl e \<Rightarrow> Inl e
                     | Inr lbl \<Rightarrow>
                         Inr \<lparr>synset_id = sid, model_id = mid, verts = vs,
                              faces = verts_idx fcs, label = lbl\<rparr>))))"

subsection \<open>The rules of the specification\<close>

text \<open>
  The resolution rule for one requested identifier, in the words of the
  specification: a valid code is a key of the dictionary whose directory
  exists; a valid label is a key of the inverse dictionary whose code's
  directory exists; \<open>accepted\<close> is the code taken, or \<open>None\<close> when the identifier is
  discarded.
\<close>

definition valid_code :: "filesystem \<Rightarrow> string \<Rightarrow> pydict \<Rightarrow> string \<Rightarrow> bool" where
  "valid_code fs dir d s = (s \<in> dict_keys d \<and> path_isdir fs (path_join dir [s]))"

definition valid_label :: "filesystem \<Rightarrow> string \<Rightarrow> pydict \<Rightarrow> string \<Rightarrow> bool" where
  "valid_label fs dir synset_inv s =
     (case map_of synset_inv s of
        Some offset \<Rightarrow> path_isdir fs (path_join dir [offset])
      | None \<Rightarrow> False)"

definition canonical_code :: "filesystem \<Rightarrow> string \<Rightarrow> pydict \<Rightarrow> pydict \<Rightarrow> string \<Rightarrow> string" where
  "canonical_code fs dir d synset_inv s =
     (if valid_code fs dir d s then s
      else (case map_of synset_inv s of Some offset \<Rightarrow> offset | None \<Rightarrow> s))"

definition accepted :: "filesystem \<Rightarrow> string \<Rightarrow> pydict \<Rightarrow> pydict \<Rightarrow> string \<Rightarrow> string option" where
  "accepted fs dir d synset_inv s =
     (if valid_code fs dir d s then Some s
      else if valid_label fs dir synset_inv s then Some (canonical_code fs dir d synset_inv s)
      else None)"

text \<open>
  The index the specification describes: for each code, in the order given,
  the entries of its directory that have the mesh file, paired with the code;
  and the warnings for the entries that do not.
\<close>

definition listed_models :: "filesystem \<Rightarrow> string \<Rightarrow> string \<Rightarrow> string list" where
  "listed_models fs dir c =
     (case os_listdir fs (path_join dir [c]) of Some ms \<Rightarrow> ms | None \<Rightarrow> [])"

definition has_mesh :: "filesystem \<Rightarrow> string \<Rightarrow> string \<Rightarrow> string \<Rightarrow> string \<Rightarrow> bool" where
  "has_mesh fs dir mdir c m = path_exists fs (path_join dir [c, m, mdir])"

definition index_entries ::
  "filesystem \<Rightarrow> string \<Rightarrow> string \<Rightarrow> string list \<Rightarrow> (string \<times> string) list" where
  "index_entries fs dir mdir cs =
     concat (map (\<lambda>c. map (Pair c) (filter (has_mesh fs dir mdir c) (listed_models fs dir c))) cs)"

definition index_warnings ::
  "filesystem \<Rightarrow> string \<Rightarrow> string \<Rightarrow> string list \<Rightarrow> warning list" where
  "index_warnings fs dir mdir cs =
     concat (map (\<lambda>c. map (\<lambda>m. ObjectFileNotFound m c)
                        (filter (\<lambda>m. \<not> has_mesh fs dir mdir c m) (listed_models fs dir c))) cs)"

text \<open>
  The record \<^verbatim>\<open>__getitem__\<close> builds for the entry at position \<open>j\<close> of the two
  lists, from what the loader returns for that entry's path.
\<close>

definition entry_path :: "ShapeNetCore \<Rightarrow> nat \<Rightarrow> string" where
  "entry_path self j = model_path self (synset_ids self ! j) (model_ids self ! j)"

definition entry_record ::
  "('v, 'i, 'a) loader \<Rightarrow> ShapeNetCore \<Rightarrow> nat \<Rightarrow> string \<Rightarrow> error + ('v, 'i) model" where
  "entry_record load_obj self j lbl =
     (case load_obj (entry_path self j) of
        Inl msg \<Rightarrow> Inl (LoadError msg)
      | Inr (vs, fcs, aux) \<Rightarrow>
          Inr \<lparr>synset_id = synset_ids self ! j, model_id = model_ids self ! j, verts = vs,
               faces = verts_idx fcs, label = lbl\<rparr>)"

subsection \<open>A small data directory\<close>

text \<open>
  Two bundled dictionaries (the second lacks the bicycle category, as the
  constructor's docstring says of version 2) and a directory \<^verbatim>\<open>/data\<close> with two
  category directories and a plain file. The airplane category has two model
  directories, one of them without \<^verbatim>\<open>model.obj\<close>.
\<close>

definition ex_dict_file :: "int \<Rightarrow> (string \<times> string) list" where
  "ex_dict_file version =
     (if version = 1 then [(''02691156'', ''airplane''), (''02834778'', ''bicycle'')]
      else [(''02691156'', ''airplane'')])"

definition ex_fs :: filesystem where
  "ex_fs = \<lparr>
     os_listdir = (\<lambda>p.
       if p = ''/data'' then Some [''02691156'', ''02834778'', ''README'']
       else if p = ''/data/02691156'' then Some [''m1'', ''m2'']
       else if p = ''/data/02834778'' then Some [''b1'']
       else None),
     path_isdir = (\<lambda>p. p \<in> {''/data'', ''/data/02691156'', ''/data/02834778'',
                            ''/data/02691156/m1'', ''/data/02691156/m2'',
                            ''/data/02834778/b1''}),
     path_exists = (\<lambda>p. p \<in> {''/data/02691156/m1/model.obj'',
                             ''/data/02834778/b1/model.obj''})\<rparr>"

definition ex_rank :: "string \<Rightarrow> nat" where
  "ex_rank s = 0"

definition ex_self :: ShapeNetCore where
  "ex_self = \<lparr>data_dir = ''/data'', model_dir = ''model.obj'',
     synset_dict = [(''02691156'', ''airplane''), (''02834778'', ''bicycle'')],
     synset_ids = [''02691156'', ''02834778''], model_ids = [''m1'', ''b1'']\<rparr>"

text \<open>A loader that reads one triangle from every file that exists in \<open>ex_fs\<close>.\<close>

definition ex_load_obj :: "(nat list, nat list, unit) loader" where
  "ex_load_obj p =
     (if path_exists ex_fs p then Inr ([0, 1, 2], \<lparr>verts_idx = [0, 1, 2]\<rparr>, ())
      else Inl ''no such file'')"

lemmas ex_defs =
  ex_dict_file_def ex_fs_def ex_rank_def ex_self_def ex_load_obj_def

lemmas model_defs =
  init_def load_synset_dict_def mesh_file_name_def dict_of_items_def resolve_def
  resolve_synsets_def resolve_synset_def list_synsets_def set_of_list_def set_add_def
  set_iter_def path_join_def join_component_def dict_keys_def dict_getitem_def
  index_model_def len_def model_path_def getitem_def list_getitem_def

section \<open>Properties\<close>

subsection \<open>Dictionaries and sets\<close>

lemma set_update_subset: "set (AList.update k v al) \<subseteq> insert (k, v) (set al)"
  by (induction al) auto

lemma set_foldl_update:
  "set (foldl (\<lambda>d (k, v). AList.update k v d) acc kvs) \<subseteq> set acc \<union> set kvs"
proof (induction kvs arbitrary: acc)
  case Nil
  show ?case by simp
next
  case (Cons kv kvs)
  obtain k v where kv: "kv = (k, v)" by (cases kv)
  have "set (foldl (\<lambda>d (k, v). AList.update k v d) (AList.update k v acc) kvs)
          \<subseteq> set (AList.update k v acc) \<union> set kvs"
    by (rule Cons.IH)
  also have "\<dots> \<subseteq> set acc \<union> set (kv # kvs)"
    using set_update_subset [of k v acc] kv by auto
  finally show ?case by (simp add: kv)
qed

lemma set_dict_of_items: "set (dict_of_items kvs) \<subseteq> set kvs"
  using set_foldl_update [of "[]" kvs] by (simp add: dict_of_items_def)

lemma dict_getitem_key:
  "k \<in> dict_keys d \<Longrightarrow> \<exists>v. map_of d k = Some v \<and> dict_getitem d k = Inr v"
  by (cases "map_of d k") (auto simp: dict_keys_def dict_getitem_def map_of_eq_None_iff)

lemma dict_getitem_no_key: "k \<notin> dict_keys d \<Longrightarrow> dict_getitem d k = Inl (KeyError k)"
  by (simp add: dict_keys_def dict_getitem_def map_of_eq_None_iff [THEN iffD2])

lemma load_synset_dict_Inr:
  assumes "load_synset_dict dict_file version = Inr (mdir, d, synset_inv)"
  shows "version = 1 \<or> version = 2" and "mdir = mesh_file_name version"
    and "d = dict_of_items (dict_file version)"
    and "\<And>l c. map_of synset_inv l = Some c \<Longrightarrow> c \<in> dict_keys d"
proof -
  from assms show "version = 1 \<or> version = 2"
    by (auto simp: load_synset_dict_def split: if_splits)
  from assms show "mdir = mesh_file_name version"
    by (auto simp: load_synset_dict_def Let_def split: if_splits)
  from assms show "d = dict_of_items (dict_file version)"
    by (auto simp: load_synset_dict_def Let_def split: if_splits)
  from assms have inv: "synset_inv = dict_of_items (map (\<lambda>(offset, label). (label, offset)) d)"
    by (auto simp: load_synset_dict_def Let_def split: if_splits)
  fix l c
  assume "map_of synset_inv l = Some c"
  then have "(l, c) \<in> set synset_inv" by (rule map_of_SomeD)
  with inv set_dict_of_items have "(l, c) \<in> set (map (\<lambda>(offset, label). (label, offset)) d)"
    by blast
  then have "(c, l) \<in> set d" by auto
  then show "c \<in> dict_keys d" by (force simp: dict_keys_def)
qed

lemma set_add_set: "set (set_add x s) = insert x (set s)"
  by (auto simp: set_add_def)

lemma set_add_distinct: "distinct s \<Longrightarrow> distinct (set_add x s)"
  by (auto simp: set_add_def)

lemma foldl_set_add_set: "set (foldl (\<lambda>s x. set_add x s) acc xs) = set acc \<union> set xs"
  by (induction xs arbitrary: acc) (auto simp: set_add_set)

lemma foldl_set_add_distinct: "distinct acc \<Longrightarrow> distinct (foldl (\<lambda>s x. set_add x s) acc xs)"
  by (induction xs arbitrary: acc) (auto simp: set_add_distinct)

lemma set_of_list_set: "set (set_of_list xs) = set xs"
  by (simp add: set_of_list_def foldl_set_add_set)

lemma set_of_list_distinct: "distinct (set_of_list xs)"
  by (simp add: set_of_list_def foldl_set_add_distinct)

lemma set_iter_set: "set (set_iter rank s) = set s"
  by (simp add: set_iter_def)

lemma set_iter_distinct: "distinct (set_iter rank s) = distinct s"
  by (simp add: set_iter_def)

subsection \<open>The loop over the requested synsets\<close>

lemma resolve_synset_accepted:
  "resolve_synset fs dir d synset_inv (S, ws) s =
     (case accepted fs dir d synset_inv s of
        Some c \<Rightarrow> (set_add c S, ws)
      | None \<Rightarrow> (S, ws @ [SynsetNotFound s dir]))"
  by (simp add: resolve_synset_def accepted_def valid_code_def valid_label_def
      canonical_code_def split: option.splits)

lemma foldl_resolve_synset:
  "foldl (resolve_synset fs dir d synset_inv) (S, ws) synsets =
     (foldl (\<lambda>s x. set_add x s) S (List.map_filter (accepted fs dir d synset_inv) synsets),
      ws @ map (\<lambda>s. SynsetNotFound s dir)
             (filter (\<lambda>s. accepted fs dir d synset_inv s = None) synsets))"
proof (induction synsets arbitrary: S ws)
  case Nil
  show ?case by (simp add: List.map_filter_simps)
next
  case (Cons s synsets)
  show ?case
  proof (cases "accepted fs dir d synset_inv s")
    case None
    then show ?thesis
      by (simp add: resolve_synset_accepted Cons.IH List.map_filter_simps)
  next
    case (Some c)
    then show ?thesis
      by (simp add: resolve_synset_accepted Cons.IH List.map_filter_simps)
  qed
qed

lemma resolve_synsets_eq:
  "resolve_synsets fs dir d synset_inv synsets =
     (set_of_list (List.map_filter (accepted fs dir d synset_inv) synsets),
      map (\<lambda>s. SynsetNotFound s dir)
        (filter (\<lambda>s. accepted fs dir d synset_inv s = None) synsets))"
  by (simp add: resolve_synsets_def foldl_resolve_synset set_of_list_def)

lemma accepted_key:
  assumes inv: "\<And>l c. map_of synset_inv l = Some c \<Longrightarrow> c \<in> dict_keys d"
    and acc: "accepted fs dir d synset_inv s = Some c"
  shows "c \<in> dict_keys d" and "path_isdir fs (path_join dir [c])"
  using acc inv
  by (auto simp: accepted_def valid_code_def valid_label_def canonical_code_def
      split: if_splits option.splits)

lemma set_map_filter: "set (List.map_filter f xs) = {y. \<exists>x\<in>set xs. f x = Some y}"
  by (induction xs) (auto simp: List.map_filter_simps split: option.splits)

subsection \<open>The loop over all directories\<close>

lemma check_synsets_Inr:
  "check_synsets d version dir cs ws = (ws', Inr u) \<Longrightarrow> set cs \<subseteq> dict_keys d \<and> ws' = ws"
proof (induction cs arbitrary: ws)
  case Nil
  then show ?case by simp
next
  case (Cons c cs)
  show ?case
  proof (cases "c \<in> dict_keys d")
    case True
    with Cons show ?thesis by simp
  next
    case False
    with Cons.prems show ?thesis by (simp add: dict_getitem_no_key)
  qed
qed

lemma check_synsets_keys:
  "set cs \<subseteq> dict_keys d \<Longrightarrow> check_synsets d version dir cs ws = (ws, Inr ())"
  by (induction cs arbitrary: ws) auto

lemma check_synsets_KeyError:
  "\<not> set cs \<subseteq> dict_keys d \<Longrightarrow>
     \<exists>k. k \<in> set cs \<and> k \<notin> dict_keys d \<and> check_synsets d version dir cs ws = (ws, Inl (KeyError k))"
proof (induction cs arbitrary: ws)
  case Nil
  then show ?case by simp
next
  case (Cons c cs)
  show ?case
  proof (cases "c \<in> dict_keys d")
    case True
    with Cons.prems have "\<not> set cs \<subseteq> dict_keys d" by simp
    from Cons.IH [OF this, of ws] True show ?thesis by auto
  next
    case False
    then show ?thesis by (auto simp: dict_getitem_no_key)
  qed
qed

lemma resolve_Inr:
  assumes inv: "\<And>l c. map_of synset_inv l = Some c \<Longrightarrow> c \<in> dict_keys d"
    and res: "resolve fs rank dir d synset_inv version synsets = (ws, Inr S)"
  shows "set S \<subseteq> dict_keys d" and "distinct S"
    and "\<forall>c\<in>set S. path_isdir fs (path_join dir [c])"
proof -
  show "set S \<subseteq> dict_keys d"
  proof (cases synsets)
    case None
    with res show ?thesis
      by (auto simp: resolve_def set_iter_set split: sum.splits prod.splits option.splits
          dest!: check_synsets_Inr)
  next
    case (Some requested)
    with res have "S = set_of_list (List.map_filter (accepted fs dir d synset_inv) requested)"
      by (simp add: resolve_def resolve_synsets_eq)
    then show ?thesis
      using accepted_key(1) [OF inv] by (auto simp: set_of_list_set set_map_filter)
  qed
  show "distinct S"
  proof (cases synsets)
    case None
    with res show ?thesis
      by (auto simp: resolve_def list_synsets_def set_of_list_distinct
          split: sum.splits prod.splits option.splits)
  next
    case (Some requested)
    with res show ?thesis
      by (auto simp: resolve_def resolve_synsets_eq set_of_list_distinct)
  qed
  show "\<forall>c\<in>set S. path_isdir fs (path_join dir [c])"
  proof (cases synsets)
    case None
    with res show ?thesis
      by (auto simp: resolve_def list_synsets_def set_of_list_set
          split: sum.splits prod.splits option.splits)
  next
    case (Some requested)
    with res have "S = set_of_list (List.map_filter (accepted fs dir d synset_inv) requested)"
      by (simp add: resolve_def resolve_synsets_eq)
    then show ?thesis
      using accepted_key(2) [OF inv] by (auto simp: set_of_list_set set_map_filter)
  qed
qed


subsection \<open>The index loops\<close>

lemma foldl_index_model:
  "foldl (index_model fs dir mdir c) (sids, mids, ws) ms =
     (sids @ map (\<lambda>m. c) (filter (has_mesh fs dir mdir c) ms),
      mids @ filter (has_mesh fs dir mdir c) ms,
      ws @ map (\<lambda>m. ObjectFileNotFound m c) (filter (\<lambda>m. \<not> has_mesh fs dir mdir c m) ms))"
  by (induction ms arbitrary: sids mids ws) (simp_all add: index_model_def has_mesh_def)

lemma zip_const_map: "zip (map (\<lambda>m. c) ms) ms = map (Pair c) ms"
  by (induction ms) simp_all

lemma index_synsets_Inr:
  assumes "index_synsets fs dir mdir cs (sids, mids, ws) = (ws', Inr (sids', mids'))"
    and "length sids = length mids"
  shows "length sids' = length mids' \<and>
         zip sids' mids' = zip sids mids @ index_entries fs dir mdir cs \<and>
         ws' = ws @ index_warnings fs dir mdir cs"
  using assms
proof (induction cs arbitrary: sids mids ws)
  case Nil
  then show ?case by (simp add: index_entries_def index_warnings_def)
next
  case (Cons c cs)
  from Cons.prems(1) obtain ms where ms: "os_listdir fs (path_join dir [c]) = Some ms"
    by (cases "os_listdir fs (path_join dir [c])") auto
  let ?good = "filter (has_mesh fs dir mdir c) ms"
  let ?bad = "filter (\<lambda>m. \<not> has_mesh fs dir mdir c m) ms"
  from Cons.prems(1) ms
  have run: "index_synsets fs dir mdir cs
               (sids @ map (\<lambda>m. c) ?good, mids @ ?good,
                ws @ map (\<lambda>m. ObjectFileNotFound m c) ?bad) = (ws', Inr (sids', mids'))"
    by (simp add: foldl_index_model)
  have len: "length (sids @ map (\<lambda>m. c) ?good) = length (mids @ ?good)"
    using Cons.prems(2) by simp
  from Cons.IH [OF run len] Cons.prems(2) ms show ?case
    by (simp add: index_entries_def index_warnings_def listed_models_def zip_const_map)
qed

lemma index_synsets_listdir:
  "index_synsets fs dir mdir cs st = (ws', Inr r) \<Longrightarrow>
     \<forall>c\<in>set cs. os_listdir fs (path_join dir [c]) \<noteq> None"
  by (induction cs arbitrary: st) (auto split: option.splits)

lemma index_entries_member:
  "(c, m) \<in> set (index_entries fs dir mdir cs) \<longleftrightarrow>
     c \<in> set cs \<and> m \<in> set (listed_models fs dir c) \<and> has_mesh fs dir mdir c m"
  by (auto simp: index_entries_def)

lemma index_entries_filter:
  assumes "distinct cs"
  shows "filter (\<lambda>(s, m). s = c) (index_entries fs dir mdir cs) =
           (if c \<in> set cs
            then map (Pair c) (filter (has_mesh fs dir mdir c) (listed_models fs dir c))
            else [])"
  using assms
proof (induction cs)
  case Nil
  show ?case by (simp add: index_entries_def)
next
  case (Cons a cs)
  have split: "index_entries fs dir mdir (a # cs) =
      map (Pair a) (filter (has_mesh fs dir mdir a) (listed_models fs dir a)) @
      index_entries fs dir mdir cs"
    by (simp add: index_entries_def)
  have own: "filter (\<lambda>(s, m). s = c) (map (Pair a) xs) = (if a = c then map (Pair a) xs else [])"
    for xs :: "string list"
    by (induction xs) auto
  from Cons show ?case
    by (auto simp: split own)
qed

subsection \<open>What a successful construction establishes\<close>

lemma init_Inr:
  assumes "init dict_file fs rank dir synsets version = (ws, Inr self)"
  obtains mdir d synset_inv ws0 S where
    "load_synset_dict dict_file version = Inr (mdir, d, synset_inv)"
    "resolve fs rank dir d synset_inv version synsets = (ws0, Inr S)"
    "index_synsets fs dir mdir (set_iter rank S) ([], [], ws0) =
       (ws, Inr (synset_ids self, model_ids self))"
    "data_dir self = dir" "model_dir self = mdir" "synset_dict self = d"
proof -
  from assms obtain mdir d synset_inv where
    l: "load_synset_dict dict_file version = Inr (mdir, d, synset_inv)"
    by (cases "load_synset_dict dict_file version") (auto simp: init_def)
  with assms obtain ws0 S where
    r: "resolve fs rank dir d synset_inv version synsets = (ws0, Inr S)"
    by (cases "resolve fs rank dir d synset_inv version synsets")
      (auto simp: init_def split: sum.splits)
  with assms l obtain sids mids where
    i: "index_synsets fs dir mdir (set_iter rank S) ([], [], ws0) = (ws, Inr (sids, mids))"
    by (cases "index_synsets fs dir mdir (set_iter rank S) ([], [], ws0)")
      (auto simp: init_def split: sum.splits)
  with assms l r have "self = \<lparr>data_dir = dir, model_dir = mdir, synset_dict = d,
      synset_ids = sids, model_ids = mids\<rparr>"
    by (simp add: init_def)
  with l r i that show thesis by simp
qed

lemma init_index:
  assumes l: "load_synset_dict dict_file version = Inr (mdir, d, synset_inv)"
    and r: "resolve fs rank dir d synset_inv version synsets = (ws0, Inr S)"
    and i: "init dict_file fs rank dir synsets version = (ws, Inr self)"
  shows "length (synset_ids self) = length (model_ids self)"
    and "zip (synset_ids self) (model_ids self) = index_entries fs dir mdir (set_iter rank S)"
    and "ws = ws0 @ index_warnings fs dir mdir (set_iter rank S)"
proof -
  from i l r have run: "index_synsets fs dir mdir (set_iter rank S) ([], [], ws0) =
      (ws, Inr (synset_ids self, model_ids self))"
    by (auto simp: init_def split: sum.splits prod.splits)
  from index_synsets_Inr [OF run]
  show "length (synset_ids self) = length (model_ids self)"
    and "zip (synset_ids self) (model_ids self) = index_entries fs dir mdir (set_iter rank S)"
    and "ws = ws0 @ index_warnings fs dir mdir (set_iter rank S)"
    by simp_all
qed

lemma init_invariant:
  assumes i: "init dict_file fs rank dir synsets version = (ws, Inr self)"
  shows "length (synset_ids self) = length (model_ids self)"
    and "set (synset_ids self) \<subseteq> dict_keys (synset_dict self)"
    and "data_dir self = dir" and "model_dir self = mesh_file_name version"
    and "version = 1 \<or> version = 2"
    and "\<And>j. j < length (model_ids self) \<Longrightarrow> path_exists fs (entry_path self j)"
proof -
  from i obtain mdir d synset_inv ws0 S where
    l: "load_synset_dict dict_file version = Inr (mdir, d, synset_inv)" and
    r: "resolve fs rank dir d synset_inv version synsets = (ws0, Inr S)" and
    f: "data_dir self = dir" "model_dir self = mdir" "synset_dict self = d"
    by (rule init_Inr)
  note idx = init_index [OF l r i]
  show len: "length (synset_ids self) = length (model_ids self)" by (rule idx(1))
  show "data_dir self = dir" by (rule f(1))
  show md: "model_dir self = mesh_file_name version"
    using f(2) load_synset_dict_Inr(2) [OF l] by simp
  show "version = 1 \<or> version = 2" by (rule load_synset_dict_Inr(1) [OF l])
  have mem: "(c, m) \<in> set (zip (synset_ids self) (model_ids self)) \<Longrightarrow>
      c \<in> set S \<and> has_mesh fs dir mdir c m" for c m
    by (simp add: idx(2) index_entries_member set_iter_set)
  have keys: "set S \<subseteq> dict_keys d"
    using resolve_Inr(1) [OF load_synset_dict_Inr(4) [OF l] r] .
  show "set (synset_ids self) \<subseteq> dict_keys (synset_dict self)"
  proof
    fix c assume "c \<in> set (synset_ids self)"
    then obtain j where j: "j < length (synset_ids self)" "synset_ids self ! j = c"
      by (auto simp: in_set_conv_nth)
    with len have "(c, model_ids self ! j) \<in> set (zip (synset_ids self) (model_ids self))"
      by (auto simp: in_set_zip)
    with mem keys f(3) show "c \<in> dict_keys (synset_dict self)" by auto
  qed
  fix j assume "j < length (model_ids self)"
  with len have "(synset_ids self ! j, model_ids self ! j)
      \<in> set (zip (synset_ids self) (model_ids self))"
    by (auto simp: in_set_zip)
  from mem [OF this] f show "path_exists fs (entry_path self j)"
    by (simp add: has_mesh_def entry_path_def model_path_def)
qed

subsection \<open>Indexed access\<close>

lemma list_getitem_cases:
  "list_getitem xs idx =
     (if - int (length xs) \<le> idx \<and> idx < int (length xs)
      then Inr (xs ! nat (if idx < 0 then int (length xs) + idx else idx))
      else Inl IndexError)"
  by (simp add: list_getitem_def)

lemma getitem_entry:
  assumes len: "length (synset_ids self) = length (model_ids self)"
    and keys: "set (synset_ids self) \<subseteq> dict_keys (synset_dict self)"
    and lo: "- int (len self) \<le> idx" and hi: "idx < int (len self)"
    and j: "j = nat (if idx < 0 then int (len self) + idx else idx)"
  shows "\<exists>lbl. map_of (synset_dict self) (synset_ids self ! j) = Some lbl \<and>
           getitem load_obj self idx = entry_record load_obj self j lbl"
proof -
  from lo hi j have jlt: "j < length (model_ids self)"
    by (auto simp: len_def split: if_splits)
  with len keys have "synset_ids self ! j \<in> dict_keys (synset_dict self)"
    by (metis nth_mem subsetD)
  then obtain lbl where lbl: "map_of (synset_dict self) (synset_ids self ! j) = Some lbl"
    "dict_getitem (synset_dict self) (synset_ids self ! j) = Inr lbl"
    using dict_getitem_key by blast
  from lo hi j len have a: "list_getitem (synset_ids self) idx = Inr (synset_ids self ! j)"
    and b: "list_getitem (model_ids self) idx = Inr (model_ids self ! j)"
    by (simp_all add: list_getitem_cases len_def)
  have "getitem load_obj self idx = entry_record load_obj self j lbl"
    by (simp add: getitem_def a b lbl(2) entry_record_def entry_path_def
        split: sum.splits prod.splits)
  with lbl(1) show ?thesis by blast
qed

lemma getitem_out_of_range:
  assumes "length (synset_ids self) = length (model_ids self)"
    and "idx < - int (len self) \<or> int (len self) \<le> idx"
  shows "getitem load_obj self idx = Inl IndexError"
  using assms by (auto simp: getitem_def list_getitem_cases len_def)

lemma entry_record_not_index_error: "entry_record load_obj self j lbl \<noteq> Inl IndexError"
  by (simp add: entry_record_def split: sum.splits prod.splits)

lemma entry_record_not_key_error: "entry_record load_obj self j lbl \<noteq> Inl (KeyError k)"
  by (simp add: entry_record_def split: sum.splits prod.splits)

subsection \<open>The example, evaluated\<close>

lemma ex_load:
  "load_synset_dict ex_dict_file 1 =
     Inr (''model.obj'', [(''02691156'', ''airplane''), (''02834778'', ''bicycle'')],
          [(''airplane'', ''02691156''), (''bicycle'', ''02834778'')])"
  by (simp add: load_synset_dict_def mesh_file_name_def dict_of_items_def ex_dict_file_def)

lemma ex_resolve:
  "resolve ex_fs ex_rank ''/data'' [(''02691156'', ''airplane''), (''02834778'', ''bicycle'')]
     [(''airplane'', ''02691156''), (''bicycle'', ''02834778'')] 1 None =
   ([], Inr [''02691156'', ''02834778''])"
  by (simp add: resolve_def list_synsets_def set_of_list_def set_add_def set_iter_def
      path_join_def join_component_def dict_keys_def ex_fs_def ex_rank_def)

lemma ex_init:
  "init ex_dict_file ex_fs ex_rank ''/data'' None 1 =
     ([ObjectFileNotFound ''m2'' ''02691156''], Inr ex_self)"
  by (simp add: model_defs ex_defs)

lemma ex_init_requested:
  "init ex_dict_file ex_fs ex_rank ''/data'' (Some [''airplane'', ''02691156'', ''02834778'']) 1 =
     ([ObjectFileNotFound ''m2'' ''02691156''], Inr ex_self)"
  by (simp add: model_defs ex_defs)

lemma ex_len: "len ex_self = 2"
  by (simp add: len_def ex_self_def)

subsection \<open>Further facts about the loops\<close>

lemma accepted_valid:
  "valid_code fs dir d s \<or> valid_label fs dir synset_inv s \<Longrightarrow>
     accepted fs dir d synset_inv s = Some (canonical_code fs dir d synset_inv s)"
  by (auto simp: accepted_def canonical_code_def)

lemma length_index_entries:
  "distinct cs \<Longrightarrow>
     length (index_entries fs dir mdir cs) =
       (\<Sum>c\<in>set cs. length (filter (has_mesh fs dir mdir c) (listed_models fs dir c)))"
  by (simp add: index_entries_def length_concat comp_def sum_list_distinct_conv_sum_set)

text \<open>
  With \<^verbatim>\<open>synsets=None\<close>, a directory under the root whose name is not a key of the
  dictionary makes the constructor raise \<open>KeyError\<close>, with no warning given.
\<close>

lemma unknown_directory_raises:
  assumes "load_synset_dict dict_file version = Inr (mdir, d, synset_inv)"
    and "os_listdir fs dir = Some names" and "n \<in> set names"
    and "path_isdir fs (path_join dir [n])" and "n \<notin> dict_keys d"
  shows "\<exists>k. k \<notin> dict_keys d \<and>
           init dict_file fs rank dir None version = ([], Inl (KeyError k))"
proof -
  let ?S = "set_of_list (filter (\<lambda>synset. path_isdir fs (path_join dir [synset])) names)"
  from assms(2) have ls: "list_synsets fs dir = Inr ?S"
    by (simp add: list_synsets_def)
  from assms(3-5) have "\<not> set (set_iter rank ?S) \<subseteq> dict_keys d"
    by (auto simp: set_iter_set set_of_list_set)
  from check_synsets_KeyError [OF this, of version dir "[]"] obtain k where
    "k \<notin> dict_keys d" "check_synsets d version dir (set_iter rank ?S) [] = ([], Inl (KeyError k))"
    by blast
  with assms(1) ls show ?thesis
    by (auto simp: init_def resolve_def)
qed

text \<open>
  The index loops return exactly when every directory they visit can be
  listed; a directory that cannot be listed raises \<open>OSError\<close>.
\<close>

lemma index_synsets_returns:
  assumes "\<forall>c\<in>set cs. os_listdir fs (path_join dir [c]) \<noteq> None"
  shows "\<exists>ws' sids' mids'. index_synsets fs dir mdir cs st = (ws', Inr (sids', mids'))"
  using assms
proof (induction cs arbitrary: st)
  case Nil
  show ?case by (cases st) simp
next
  case (Cons c cs)
  from Cons.prems obtain ms where ms: "os_listdir fs (path_join dir [c]) = Some ms"
    by auto
  from Cons.prems have rest: "\<forall>c\<in>set cs. os_listdir fs (path_join dir [c]) \<noteq> None"
    by simp
  from Cons.IH [OF rest, of "foldl (index_model fs dir mdir c) st ms"] ms
  show ?case by simp
qed

lemma index_synsets_OSError:
  assumes "\<not> (\<forall>c\<in>set cs. os_listdir fs (path_join dir [c]) \<noteq> None)"
  shows "\<exists>ws' c. c \<in> set cs \<and> os_listdir fs (path_join dir [c]) = None \<and>
           index_synsets fs dir mdir cs st = (ws', Inl (OSError (path_join dir [c])))"
  using assms
proof (induction cs arbitrary: st)
  case Nil
  then show ?case by simp
next
  case (Cons c cs)
  show ?case
  proof (cases "os_listdir fs (path_join dir [c])")
    case None
    then show ?thesis by auto
  next
    case (Some ms)
    with Cons.prems have "\<not> (\<forall>c\<in>set cs. os_listdir fs (path_join dir [c]) \<noteq> None)"
      by simp
    from Cons.IH [OF this, of "foldl (index_model fs dir mdir c) st ms"] Some
    show ?thesis by auto
  qed
qed

lemma init_returns:
  assumes l: "load_synset_dict dict_file version = Inr (mdir, d, synset_inv)"
    and r: "resolve fs rank dir d synset_inv version synsets = (ws0, Inr S)"
    and ls: "\<forall>c\<in>set S. os_listdir fs (path_join dir [c]) \<noteq> None"
  shows "\<exists>ws self. init dict_file fs rank dir synsets version = (ws, Inr self)"
proof -
  from ls have "\<forall>c\<in>set (set_iter rank S). os_listdir fs (path_join dir [c]) \<noteq> None"
    by (simp add: set_iter_set)
  from index_synsets_returns [OF this, of mdir "([], [], ws0)"] obtain ws sids mids where
    "index_synsets fs dir mdir (set_iter rank S) ([], [], ws0) = (ws, Inr (sids, mids))"
    by blast
  with l r show ?thesis
    by (simp add: init_def)
qed

section \<open>The claims\<close>

text \<open>
  C6. For version 1 and version 2 the dictionary load of the constructor
  succeeds (it returns the mesh file name, the dictionary and its inverse); for
  every other version the load fails with \<open>ValueError\<close>, and so does the
  constructor, with no warning given, whatever the file system is: the check
  precedes every access to it.
\<close>

theorem version_check:
  "(version \<notin> {1, 2} \<longrightarrow>
      load_synset_dict dict_file version = Inl ValueError \<and>
      init dict_file fs rank dir synsets version = ([], Inl ValueError)) \<and>
   (version \<in> {1, 2} \<longrightarrow>
      load_synset_dict dict_file version =
        Inr (mesh_file_name version, dict_of_items (dict_file version),
             dict_of_items (map (\<lambda>(offset, label). (label, offset))
                              (dict_of_items (dict_file version)))))"
  by (simp add: init_def load_synset_dict_def Let_def)

theorem version_check_witness:
  "init ex_dict_file ex_fs ex_rank ''/data'' None 3 = ([], Inl ValueError) \<and>
   load_synset_dict ex_dict_file 1 =
     Inr (''model.obj'', [(''02691156'', ''airplane''), (''02834778'', ''bicycle'')],
          [(''airplane'', ''02691156''), (''bicycle'', ''02834778'')])"
proof -
  have bad: "(3::int) \<notin> {1, 2}" and good: "(1::int) \<in> {1, 2}"
    by simp_all
  from bad version_check [of 3 ex_dict_file ex_fs ex_rank "''/data''" None]
  have "init ex_dict_file ex_fs ex_rank ''/data'' None 3 = ([], Inl ValueError)"
    by blast
  moreover from good version_check [of 1 ex_dict_file]
  have "load_synset_dict ex_dict_file 1 =
          Inr (mesh_file_name 1, dict_of_items (ex_dict_file 1),
               dict_of_items (map (\<lambda>(offset, label). (label, offset))
                                (dict_of_items (ex_dict_file 1))))"
    by blast
  ultimately show ?thesis
    by (simp add: mesh_file_name_def dict_of_items_def ex_dict_file_def)
qed

text \<open>
  C4. With a list of requested synsets, each identifier is resolved by the
  three-way rule \<open>accepted\<close>: a valid code is added as it is, otherwise a valid
  label adds its inverse-mapped code, otherwise the warning naming the
  identifier and the root is given and nothing is added. The whole loop returns
  the set of the accepted codes and the warnings of the discarded identifiers,
  in request order, and it has no failing branch.
\<close>

theorem resolve_three_way:
  "resolve_synset fs dir d synset_inv (S, ws) s =
     (case accepted fs dir d synset_inv s of
        Some c \<Rightarrow> (set_add c S, ws)
      | None \<Rightarrow> (S, ws @ [SynsetNotFound s dir])) \<and>
   resolve fs rank dir d synset_inv version (Some synsets) =
     (map (\<lambda>s. SynsetNotFound s dir)
        (filter (\<lambda>s. accepted fs dir d synset_inv s = None) synsets),
      Inr (set_of_list (List.map_filter (accepted fs dir d synset_inv) synsets)))"
  by (simp add: resolve_def resolve_synsets_eq resolve_synset_accepted)

theorem resolve_three_way_witness:
  "resolve ex_fs ex_rank ''/data''
     [(''02691156'', ''airplane''), (''02834778'', ''bicycle'')]
     [(''airplane'', ''02691156''), (''bicycle'', ''02834778'')] 1
     (Some [''airplane'', ''02834778'', ''02691156'', ''boat'']) =
   ([SynsetNotFound ''boat'' ''/data''], Inr [''02691156'', ''02834778''])"
proof -
  have "accepted ex_fs ''/data'' [(''02691156'', ''airplane''), (''02834778'', ''bicycle'')]
          [(''airplane'', ''02691156''), (''bicycle'', ''02834778'')] =
        (\<lambda>s. if s = ''02691156'' \<or> s = ''airplane'' then Some ''02691156''
             else if s = ''02834778'' \<or> s = ''bicycle'' then Some ''02834778'' else None)"
    by (rule ext)
      (simp add: accepted_def valid_code_def valid_label_def canonical_code_def dict_keys_def
        path_join_def join_component_def ex_fs_def)
  with resolve_three_way [of ex_fs "''/data''"
      "[(''02691156'', ''airplane''), (''02834778'', ''bicycle'')]"
      "[(''airplane'', ''02691156''), (''bicycle'', ''02834778'')]" "[]" "[]" "''x''" ex_rank 1
      "[''airplane'', ''02834778'', ''02691156'', ''boat'']"]
  show ?thesis
    by (simp add: List.map_filter_simps set_of_list_def set_add_def)
qed

text \<open>
  C1. For a dataset the constructor returned and an index \<open>0 \<le> i < N\<close>, the label
  lookup succeeds and \<^verbatim>\<open>__getitem__\<close> hands the entry's path to the loader: what it
  returns is the loader's outcome for that path, and when the loader returns,
  the record has \<open>synset_id = synset_ids[i]\<close>, \<open>model_id = model_ids[i]\<close> and as
  \<open>label\<close> the dictionary's value for \<open>synset_ids[i]\<close>.
\<close>


theorem getitem_in_range:
  assumes "init dict_file fs rank dir synsets version = (ws, Inr self)"
    and "0 \<le> i" and "i < int (len self)"
  shows "\<exists>lbl. map_of (synset_dict self) (synset_ids self ! nat i) = Some lbl \<and>
           getitem load_obj self i =
             (case load_obj (path_join dir [synset_ids self ! nat i, model_ids self ! nat i,
                                            mesh_file_name version]) of
                Inl msg \<Rightarrow> Inl (LoadError msg)
              | Inr (vs, fcs, aux) \<Rightarrow>
                  Inr \<lparr>synset_id = synset_ids self ! nat i, model_id = model_ids self ! nat i,
                       verts = vs, faces = verts_idx fcs, label = lbl\<rparr>)"
proof -
  note inv = init_invariant [OF assms(1)]
  from assms(2,3) have "- int (len self) \<le> i" and "nat i = nat (if i < 0 then int (len self) + i else i)"
    by simp_all
  from getitem_entry [OF inv(1) inv(2) this(1) assms(3) this(2), of load_obj]
  show ?thesis
    by (simp add: entry_record_def entry_path_def model_path_def inv(3) inv(4))
qed

theorem getitem_in_range_witness:
  "getitem ex_load_obj ex_self 0 =
     Inr \<lparr>synset_id = ''02691156'', model_id = ''m1'', verts = [0, 1, 2],
          faces = [0, 1, 2], label = ''airplane''\<rparr>"
proof -
  have "(0::int) \<le> 0" and "0 < int (len ex_self)"
    by (simp_all add: ex_len)
  from getitem_in_range [OF ex_init this, of ex_load_obj]
  show ?thesis
    by (simp add: ex_self_def ex_load_obj_def ex_fs_def mesh_file_name_def
        path_join_def join_component_def)
qed

text \<open>
  C3. Once the dictionary is loaded and the categories are resolved, and every
  resolved directory can be listed, the constructor returns a dataset: a model
  without the mesh file gives one warning and no entry, and never an error.
  The index is, for each resolved code in iteration order, the entries of the
  code's directory whose mesh file exists, in listing order: a pair
  \<open>(code, model)\<close> is in the index exactly when the model is listed under the
  code and its mesh file exists. \<^verbatim>\<open>__len__\<close> is the number of entries appended.
\<close>

theorem index_construction:
  assumes "load_synset_dict dict_file version = Inr (mdir, d, synset_inv)"
    and "resolve fs rank dir d synset_inv version synsets = (ws0, Inr S)"
    and "\<forall>c\<in>set S. os_listdir fs (path_join dir [c]) \<noteq> None"
  shows "\<exists>self.
           init dict_file fs rank dir synsets version =
             (ws0 @ index_warnings fs dir mdir (set_iter rank S), Inr self) \<and>
           zip (synset_ids self) (model_ids self) =
             index_entries fs dir mdir (set_iter rank S) \<and>
           length (synset_ids self) = len self \<and>
           len self = length (index_entries fs dir mdir (set_iter rank S)) \<and>
           (\<forall>c m. (c, m) \<in> set (zip (synset_ids self) (model_ids self)) \<longleftrightarrow>
              c \<in> set S \<and> m \<in> set (listed_models fs dir c) \<and>
              path_exists fs (path_join dir [c, m, mdir]))"
proof -
  from init_returns [OF assms] obtain ws self where
    i: "init dict_file fs rank dir synsets version = (ws, Inr self)"
    by blast
  note idx = init_index [OF assms(1,2) i]
  have "init dict_file fs rank dir synsets version =
          (ws0 @ index_warnings fs dir mdir (set_iter rank S), Inr self)"
    using i idx(3) by simp
  moreover have "length (zip (synset_ids self) (model_ids self)) = len self"
    using idx(1) by (simp add: len_def)
  then have "len self = length (index_entries fs dir mdir (set_iter rank S))"
    by (simp only: idx(2))
  moreover have "length (synset_ids self) = len self"
    using idx(1) by (simp add: len_def)
  moreover have "(c, m) \<in> set (zip (synset_ids self) (model_ids self)) \<longleftrightarrow>
            c \<in> set S \<and> m \<in> set (listed_models fs dir c) \<and>
            path_exists fs (path_join dir [c, m, mdir])" for c m
    by (simp add: idx(2) index_entries_member set_iter_set has_mesh_def)
  ultimately show ?thesis
    using idx(2) by blast
qed

theorem index_construction_witness:
  "index_entries ex_fs ''/data'' ''model.obj'' (set_iter ex_rank [''02691156'', ''02834778'']) =
     [(''02691156'', ''m1''), (''02834778'', ''b1'')] \<and>
   index_warnings ex_fs ''/data'' ''model.obj'' (set_iter ex_rank [''02691156'', ''02834778'']) =
     [ObjectFileNotFound ''m2'' ''02691156''] \<and>
   len ex_self = 2"
proof -
  have lists: "\<forall>c\<in>set [''02691156'', ''02834778''].
      os_listdir ex_fs (path_join ''/data'' [c]) \<noteq> None"
    by (simp add: path_join_def join_component_def ex_fs_def)
  from index_construction [OF ex_load ex_resolve lists] obtain self where
    built: "init ex_dict_file ex_fs ex_rank ''/data'' None 1 =
        ([] @ index_warnings ex_fs ''/data'' ''model.obj''
                (set_iter ex_rank [''02691156'', ''02834778'']), Inr self)"
      "zip (synset_ids self) (model_ids self) =
         index_entries ex_fs ''/data'' ''model.obj''
           (set_iter ex_rank [''02691156'', ''02834778''])"
    by (elim exE conjE)
  from built(1) have missing:
    "index_warnings ex_fs ''/data'' ''model.obj'' (set_iter ex_rank [''02691156'', ''02834778'']) =
       [ObjectFileNotFound ''m2'' ''02691156'']"
    and self: "self = ex_self"
    by (simp_all add: ex_init)
  from built(2) self have entries:
    "index_entries ex_fs ''/data'' ''model.obj'' (set_iter ex_rank [''02691156'', ''02834778'']) =
       zip (synset_ids ex_self) (model_ids ex_self)"
    by simp
  show ?thesis
    by (simp add: entries missing ex_len) (simp add: ex_self_def)
qed

text \<open>
  C2. With \<^verbatim>\<open>synsets=None\<close> a subdirectory of the root that is not a key of the
  dictionary should only give a warning and be loaded. On the example
  directory with the version 2 dictionary, which lacks the bicycle category,
  the constructor raises \<open>KeyError\<close> instead: the format arguments of the warning
  read \<^verbatim>\<open>self.synset_dict[synset]\<close> for the very key that is absent.
\<close>

theorem unknown_directory_key_error:
  "init ex_dict_file ex_fs ex_rank ''/data'' None 2 = ([], Inl (KeyError ''02834778''))"
  by (simp add: model_defs ex_defs)

text \<open>
  C5, as amended. For a dataset the constructor returned, \<^verbatim>\<open>__getitem__\<close> raises
  \<open>IndexError\<close>, from the list read, exactly for an index below \<open>-N\<close> or at least
  \<open>N\<close>. So \<open>get(N)\<close> always fails, and \<open>get(-1)\<close> fails only for the empty
  dataset.
\<close>

theorem getitem_index_error:
  assumes "init dict_file fs rank dir synsets version = (ws, Inr self)"
  shows "getitem load_obj self idx = Inl IndexError \<longleftrightarrow>
           idx < - int (len self) \<or> int (len self) \<le> idx"
proof (cases "idx < - int (len self) \<or> int (len self) \<le> idx")
  case True
  with getitem_out_of_range [OF init_invariant(1) [OF assms]] show ?thesis
    by blast
next
  case False
  then have "- int (len self) \<le> idx" and "idx < int (len self)"
    by simp_all
  from getitem_entry [OF init_invariant(1,2) [OF assms] this refl, of load_obj]
  have "getitem load_obj self idx \<noteq> Inl IndexError"
    by (metis entry_record_not_index_error)
  with False show ?thesis by blast
qed

theorem getitem_index_error_witness:
  "getitem ex_load_obj ex_self 2 = Inl IndexError \<and>
   getitem ex_load_obj ex_self (- 3) = Inl IndexError \<and>
   getitem ex_load_obj ex_self (- 1) \<noteq> Inl IndexError"
  using getitem_index_error [OF ex_init, of ex_load_obj 2]
    getitem_index_error [OF ex_init, of ex_load_obj "- 3"]
    getitem_index_error [OF ex_init, of ex_load_obj "- 1"]
  by (simp add: ex_len)

text \<open>
  C5, as stated, fails: on the example dataset, of size 2, \<open>get(-1)\<close> returns the
  record of the last entry.
\<close>

theorem getitem_minus_one_counterexample:
  "init ex_dict_file ex_fs ex_rank ''/data'' None 1 =
     ([ObjectFileNotFound ''m2'' ''02691156''], Inr ex_self) \<and>
   len ex_self = 2 \<and>
   getitem ex_load_obj ex_self (- 1) =
     Inr \<lparr>synset_id = ''02834778'', model_id = ''b1'', verts = [0, 1, 2],
          faces = [0, 1, 2], label = ''bicycle''\<rparr>"
  by (simp add: model_defs ex_defs)

text \<open>
  C7. For a dataset the constructor returned and every position \<open>j < N\<close>, the
  path joined from the root, \<open>synset_ids[j]\<close>, \<open>model_ids[j]\<close> and the mesh file
  name existed when the index was built; the mesh file name is \<^verbatim>\<open>model.obj\<close> for
  version 1 and \<^verbatim>\<open>models/model_normalized.obj\<close> for version 2; and \<open>get(j)\<close> gives
  the loader this same path.
\<close>

theorem mesh_file_exists:
  assumes "init dict_file fs rank dir synsets version = (ws, Inr self)"
    and "j < len self"
  shows "path_exists fs (path_join dir [synset_ids self ! j, model_ids self ! j, model_dir self]) \<and>
         model_dir self = (if version = 1 then ''model.obj'' else ''models/model_normalized.obj'') \<and>
         (version = 1 \<or> version = 2) \<and>
         (\<exists>lbl. getitem load_obj self (int j) =
            (case load_obj (path_join dir [synset_ids self ! j, model_ids self ! j,
                                           model_dir self]) of
               Inl msg \<Rightarrow> Inl (LoadError msg)
             | Inr (vs, fcs, aux) \<Rightarrow>
                 Inr \<lparr>synset_id = synset_ids self ! j, model_id = model_ids self ! j,
                      verts = vs, faces = verts_idx fcs, label = lbl\<rparr>))"
proof -
  note inv = init_invariant [OF assms(1)]
  from assms(2) have j: "j < length (model_ids self)"
    by (simp add: len_def)
  have "path_exists fs (path_join dir [synset_ids self ! j, model_ids self ! j, model_dir self])"
    using inv(6) [OF j] by (simp add: entry_path_def model_path_def inv(3))
  moreover have "model_dir self = (if version = 1 then ''model.obj'' else ''models/model_normalized.obj'')"
    by (simp add: inv(4) mesh_file_name_def)
  moreover have "\<exists>lbl. getitem load_obj self (int j) =
            (case load_obj (path_join dir [synset_ids self ! j, model_ids self ! j,
                                           model_dir self]) of
               Inl msg \<Rightarrow> Inl (LoadError msg)
             | Inr (vs, fcs, aux) \<Rightarrow>
                 Inr \<lparr>synset_id = synset_ids self ! j, model_id = model_ids self ! j,
                      verts = vs, faces = verts_idx fcs, label = lbl\<rparr>)"
  proof -
    from assms(2) have "- int (len self) \<le> int j" and "int j < int (len self)"
      and "j = nat (if int j < 0 then int (len self) + int j else int j)"
      by simp_all
    from getitem_entry [OF inv(1) inv(2) this, of load_obj] show ?thesis
      by (auto simp: entry_record_def entry_path_def model_path_def inv(3))
  qed
  ultimately show ?thesis
    using inv(5) by blast
qed

theorem mesh_file_exists_witness:
  "path_exists ex_fs ''/data/02834778/b1/model.obj'' \<and>
   (\<exists>lbl. getitem ex_load_obj ex_self 1 =
      Inr \<lparr>synset_id = ''02834778'', model_id = ''b1'', verts = [0, 1, 2],
           faces = [0, 1, 2], label = lbl\<rparr>)"
proof -
  have "1 < len ex_self"
    by (simp add: ex_len)
  from mesh_file_exists [OF ex_init this, of ex_load_obj]
  have "path_exists ex_fs (path_join ''/data'' [synset_ids ex_self ! 1, model_ids ex_self ! 1,
                                               model_dir ex_self])"
    and "\<exists>lbl. getitem ex_load_obj ex_self (int 1) =
            (case ex_load_obj (path_join ''/data'' [synset_ids ex_self ! 1, model_ids ex_self ! 1,
                                           model_dir ex_self]) of
               Inl msg \<Rightarrow> Inl (LoadError msg)
             | Inr (vs, fcs, aux) \<Rightarrow>
                 Inr \<lparr>synset_id = synset_ids ex_self ! 1, model_id = model_ids ex_self ! 1,
                      verts = vs, faces = verts_idx fcs, label = lbl\<rparr>)"
    by blast+
  then show ?thesis
    by (simp add: ex_self_def ex_load_obj_def ex_fs_def path_join_def join_component_def)
qed

text \<open>
  C8. When every requested identifier is a valid code or a valid label, no
  warning is given and the resolved set holds the canonical codes of the
  requests, each once, however often and in whichever form a category is
  requested. In the dataset built from it, the entries of a resolved code are
  the models of its directory that have the mesh file, each listed once, and
  the size is the number of such models over the resolved codes.
\<close>

theorem resolve_mixed:
  assumes valid: "\<forall>s\<in>set synsets. valid_code fs dir d s \<or> valid_label fs dir synset_inv s"
  shows "\<exists>S. resolve fs rank dir d synset_inv version (Some synsets) = ([], Inr S) \<and>
           distinct S \<and>
           set S = canonical_code fs dir d synset_inv ` set synsets \<and>
           (\<forall>dict_file mdir ws self.
              load_synset_dict dict_file version = Inr (mdir, d, synset_inv) \<longrightarrow>
              init dict_file fs rank dir (Some synsets) version = (ws, Inr self) \<longrightarrow>
                (\<forall>c\<in>set S.
                   filter (\<lambda>(s, m). s = c) (zip (synset_ids self) (model_ids self)) =
                     map (Pair c) (filter (has_mesh fs dir mdir c) (listed_models fs dir c))) \<and>
                len self =
                  (\<Sum>c\<in>set S. length (filter (has_mesh fs dir mdir c) (listed_models fs dir c))))"
proof -
  let ?acc = "accepted fs dir d synset_inv"
  let ?S = "set_of_list (List.map_filter ?acc synsets)"
  from valid have acc: "?acc s = Some (canonical_code fs dir d synset_inv s)"
    if "s \<in> set synsets" for s
    using that by (simp add: accepted_valid)
  then have none: "filter (\<lambda>s. ?acc s = None) synsets = []"
    by (simp add: filter_empty_conv)
  have res: "resolve fs rank dir d synset_inv version (Some synsets) = ([], Inr ?S)"
    by (simp add: resolve_def resolve_synsets_eq none)
  have dist: "distinct ?S"
    by (rule set_of_list_distinct)
  have mem: "set ?S = canonical_code fs dir d synset_inv ` set synsets"
    using acc by (auto simp: set_of_list_set set_map_filter)
  have idx: "(\<forall>c\<in>set ?S.
                filter (\<lambda>(s, m). s = c) (zip (synset_ids self) (model_ids self)) =
                  map (Pair c) (filter (has_mesh fs dir mdir c) (listed_models fs dir c))) \<and>
             len self =
               (\<Sum>c\<in>set ?S. length (filter (has_mesh fs dir mdir c) (listed_models fs dir c)))"
    if l: "load_synset_dict dict_file version = Inr (mdir, d, synset_inv)"
      and i: "init dict_file fs rank dir (Some synsets) version = (ws, Inr self)"
    for dict_file mdir ws self
  proof -
    note built = init_index [OF l res i]
    have d': "distinct (set_iter rank ?S)"
      by (simp add: set_iter_distinct dist)
    have "len self = length (zip (synset_ids self) (model_ids self))"
      using built(1) by (simp add: len_def)
    also have "\<dots> = (\<Sum>c\<in>set ?S. length (filter (has_mesh fs dir mdir c) (listed_models fs dir c)))"
      by (simp only: built(2) length_index_entries [OF d'] set_iter_set)
    finally have "len self =
        (\<Sum>c\<in>set ?S. length (filter (has_mesh fs dir mdir c) (listed_models fs dir c)))" .
    moreover have "filter (\<lambda>(s, m). s = c) (zip (synset_ids self) (model_ids self)) =
        map (Pair c) (filter (has_mesh fs dir mdir c) (listed_models fs dir c))"
      if "c \<in> set ?S" for c
      using that by (simp add: built(2) index_entries_filter [OF d'] set_iter_set)
    ultimately show ?thesis by blast
  qed
  from res dist mem idx show ?thesis by blast
qed

theorem resolve_mixed_witness:
  "\<exists>S. resolve ex_fs ex_rank ''/data''
          [(''02691156'', ''airplane''), (''02834778'', ''bicycle'')]
          [(''airplane'', ''02691156''), (''bicycle'', ''02834778'')] 1
          (Some [''airplane'', ''02691156'', ''02834778'']) = ([], Inr S) \<and>
        distinct S \<and> set S = {''02691156'', ''02834778''} \<and>
        filter (\<lambda>(s, m). s = ''02691156'') (zip (synset_ids ex_self) (model_ids ex_self)) =
          map (Pair ''02691156'')
            (filter (has_mesh ex_fs ''/data'' ''model.obj'' ''02691156'')
               (listed_models ex_fs ''/data'' ''02691156''))"
proof -
  let ?d = "[(''02691156'', ''airplane''), (''02834778'', ''bicycle'')]"
  let ?inv = "[(''airplane'', ''02691156''), (''bicycle'', ''02834778'')]"
  let ?req = "[''airplane'', ''02691156'', ''02834778'']"
  have valid: "\<forall>s\<in>set ?req. valid_code ex_fs ''/data'' ?d s \<or> valid_label ex_fs ''/data'' ?inv s"
    by (simp add: valid_code_def valid_label_def dict_keys_def path_join_def join_component_def
        ex_fs_def)
  have canon: "canonical_code ex_fs ''/data'' ?d ?inv ` set ?req = {''02691156'', ''02834778''}"
    by (simp add: canonical_code_def valid_code_def dict_keys_def path_join_def
        join_component_def ex_fs_def)
  from resolve_mixed [OF valid, of ex_rank 1] obtain S where
    S: "resolve ex_fs ex_rank ''/data'' ?d ?inv 1 (Some ?req) = ([], Inr S) \<and>
        distinct S \<and>
        set S = canonical_code ex_fs ''/data'' ?d ?inv ` set ?req \<and>
        (\<forall>dict_file mdir ws self.
           load_synset_dict dict_file 1 = Inr (mdir, ?d, ?inv) \<longrightarrow>
           init dict_file ex_fs ex_rank ''/data'' (Some ?req) 1 = (ws, Inr self) \<longrightarrow>
             (\<forall>c\<in>set S.
                filter (\<lambda>(s, m). s = c) (zip (synset_ids self) (model_ids self)) =
                  map (Pair c)
                    (filter (has_mesh ex_fs ''/data'' mdir c) (listed_models ex_fs ''/data'' c))) \<and>
             len self =
               (\<Sum>c\<in>set S. length (filter (has_mesh ex_fs ''/data'' mdir c)
                                     (listed_models ex_fs ''/data'' c))))"
    ..
  note res = S [THEN conjunct1]
  note dist = S [THEN conjunct2, THEN conjunct1]
  have mem: "set S = {''02691156'', ''02834778''}"
    using S [THEN conjunct2, THEN conjunct2, THEN conjunct1] by (simp only: canon)
  note per_code = S [THEN conjunct2, THEN conjunct2, THEN conjunct2, rule_format,
      OF ex_load ex_init_requested, THEN conjunct1]
  have "''02691156'' \<in> set S"
    by (simp only: mem insertI1)
  from bspec [OF per_code this] res dist mem show ?thesis
    by (intro exI [of _ S] conjI)
qed

text \<open>
  C9. Whenever the constructor returns a dataset, with or without requested
  synsets, every code in \<open>synset_ids\<close> is a key of the loaded dictionary, and
  \<^verbatim>\<open>__getitem__\<close> never raises \<open>KeyError\<close>.
\<close>

theorem index_codes_in_dict:
  assumes "init dict_file fs rank dir synsets version = (ws, Inr self)"
  shows "set (synset_ids self) \<subseteq> dict_keys (synset_dict self) \<and>
         (\<forall>idx k. getitem load_obj self idx \<noteq> Inl (KeyError k))"
proof -
  note inv = init_invariant [OF assms]
  have "getitem load_obj self idx \<noteq> Inl (KeyError k)" for idx k
  proof (cases "idx < - int (len self) \<or> int (len self) \<le> idx")
    case True
    from getitem_out_of_range [OF inv(1) this, of load_obj] show ?thesis by simp
  next
    case False
    then have "- int (len self) \<le> idx" and "idx < int (len self)"
      by simp_all
    from getitem_entry [OF inv(1,2) this refl, of load_obj] show ?thesis
      by (metis entry_record_not_key_error)
  qed
  with inv(2) show ?thesis by blast
qed

theorem index_codes_in_dict_witness:
  "set (synset_ids ex_self) \<subseteq> dict_keys (synset_dict ex_self) \<and>
   getitem ex_load_obj ex_self 1 \<noteq> Inl (KeyError ''02834778'')"
  using index_codes_in_dict [OF ex_init, of ex_load_obj] by blast

text \<open>
  C10. For a dataset the constructor returned, of size \<open>N\<close>, and \<open>1 \<le> k \<le> N\<close>,
  \<open>get(-k)\<close> is \<open>get(N - k)\<close>: neither list read fails, the label lookup succeeds,
  and the result is the record of entry \<open>N - k\<close> built from the loader's outcome.
\<close>

theorem getitem_negative:
  assumes "init dict_file fs rank dir synsets version = (ws, Inr self)"
    and "1 \<le> k" and "k \<le> int (len self)"
  shows "getitem load_obj self (- k) = getitem load_obj self (int (len self) - k) \<and>
         (\<exists>lbl. map_of (synset_dict self) (synset_ids self ! nat (int (len self) - k)) = Some lbl \<and>
            getitem load_obj self (- k) =
              entry_record load_obj self (nat (int (len self) - k)) lbl)"
proof -
  note inv = init_invariant [OF assms(1)]
  let ?j = "nat (int (len self) - k)"
  from assms(2,3) have neg: "- int (len self) \<le> - k" "- k < int (len self)"
    "?j = nat (if - k < 0 then int (len self) + - k else - k)"
    by simp_all
  from assms(2,3) have pos: "- int (len self) \<le> int (len self) - k" "int (len self) - k < int (len self)"
    "?j = nat (if int (len self) - k < 0 then int (len self) + (int (len self) - k)
               else int (len self) - k)"
    by simp_all
  from getitem_entry [OF inv(1,2) neg, of load_obj] obtain lbl where
    a: "map_of (synset_dict self) (synset_ids self ! ?j) = Some lbl"
      "getitem load_obj self (- k) = entry_record load_obj self ?j lbl"
    by blast
  from getitem_entry [OF inv(1,2) pos, of load_obj] a(1)
  have "getitem load_obj self (int (len self) - k) = entry_record load_obj self ?j lbl"
    by auto
  with a show ?thesis by auto
qed

theorem getitem_negative_witness:
  "getitem ex_load_obj ex_self (- 2) = getitem ex_load_obj ex_self 0 \<and>
   getitem ex_load_obj ex_self (- 2) =
     Inr \<lparr>synset_id = ''02691156'', model_id = ''m1'', verts = [0, 1, 2],
          faces = [0, 1, 2], label = ''airplane''\<rparr>"
proof -
  have "(1::int) \<le> 2" and "2 \<le> int (len ex_self)"
    by (simp_all add: ex_len)
  from getitem_negative [OF ex_init this, of ex_load_obj]
  show ?thesis
    by (simp add: ex_len)
      (auto simp: entry_record_def entry_path_def model_path_def ex_self_def ex_load_obj_def
        ex_fs_def path_join_def join_component_def)
qed

end
